theory Spec2Isabelle
  imports Main
begin

section \<open>Buffers, code units and JavaScript string primitives\<close>

text \<open>
  A buffer is a JavaScript string, read here as the list of its code units. The scanner
  compares code units with ASCII characters only, and its two regular-expression tests
  (\<^verbatim>\<open>/\s/\<close> and \<^verbatim>\<open>/[a-zA-Z_$]/\<close>) are the only other character classes
  it uses, so a buffer is a \<^typ>\<open>string\<close> whose characters are the code units below 256.
  Indices, offsets, lines and columns are JavaScript numbers holding integers: \<^typ>\<open>int\<close>.
\<close>

definition backslash :: char where
  "backslash = CHR 0x5C"

definition squote :: char where
  "squote = CHR 0x27"

definition dquote :: char where
  "dquote = CHR 0x22"

definition backtick :: char where
  "backtick = CHR 0x60"

definition newline :: char where
  "newline = CHR 0x0A"

text \<open>\<^verbatim>\<open>code[i]\<close>: the code unit at index \<open>i\<close>, \<^verbatim>\<open>undefined\<close> (here \<open>None\<close>) out of range.\<close>

definition char_at :: "string \<Rightarrow> int \<Rightarrow> char option" where
  "char_at code i = (if 0 \<le> i \<and> i < int (length code) then Some (code ! nat i) else None)"

text \<open>
  \<^verbatim>\<open>/\s/.test(code[i])\<close>. Below 256 the class \<^verbatim>\<open>\s\<close> holds tab, line feed, vertical tab,
  form feed, carriage return, space and the no-break space. On \<^verbatim>\<open>undefined\<close> the test
  reads the text "undefined", which has no white space.
\<close>

definition isWhitespace :: "char \<Rightarrow> bool" where
  "isWhitespace c = (c \<in> set [CHR 0x09, CHR 0x0A, CHR 0x0B, CHR 0x0C, CHR 0x0D, CHR 0x20, CHR 0xA0])"

definition testWhitespace :: "char option \<Rightarrow> bool" where
  "testWhitespace oc = (case oc of None \<Rightarrow> False | Some c \<Rightarrow> isWhitespace c)"

text \<open>
  \<^verbatim>\<open>/[a-zA-Z_$]/.test(code[i])\<close>. On \<^verbatim>\<open>undefined\<close> the test reads the text "undefined",
  which has a letter.
\<close>

definition isWordChar :: "char \<Rightarrow> bool" where
  "isWordChar c = (c \<in> set ''abcdefghijklmnopqrstuvwxyzABCDEFGHIJKLMNOPQRSTUVWXYZ_$'')"

definition testWordChar :: "char option \<Rightarrow> bool" where
  "testWordChar oc = (case oc of None \<Rightarrow> True | Some c \<Rightarrow> isWordChar c)"

text \<open>\<^verbatim>\<open>code.slice(a, b)\<close>: a negative argument counts from the end, both are clamped.\<close>

definition slice :: "string \<Rightarrow> int \<Rightarrow> int \<Rightarrow> string" where
  "slice code a b =
     (let len = int (length code);
          from = (if a < 0 then max (len + a) 0 else min a len);
          to = (if b < 0 then max (len + b) 0 else min b len)
      in take (nat (to - from)) (drop (nat from) code))"

text \<open>
  \<^verbatim>\<open>code.substring(a, b)\<close> and \<^verbatim>\<open>code.substring(a)\<close>: each argument is clamped to
  \<open>[0, length]\<close>, and the two are swapped when the first is the larger.
\<close>

definition substring :: "string \<Rightarrow> int \<Rightarrow> int \<Rightarrow> string" where
  "substring code a b =
     (let len = int (length code);
          a' = min (max a 0) len;
          b' = min (max b 0) len;
          from = min a' b';
          to = max a' b'
      in take (nat (to - from)) (drop (nat from) code))"

definition substringFrom :: "string \<Rightarrow> int \<Rightarrow> string" where
  "substringFrom code a = substring code a (int (length code))"

text \<open>\<^verbatim>\<open>code.split('\n')\<close>: the lines of the buffer; never the empty list.\<close>

fun splitLines :: "string \<Rightarrow> string list" where
  "splitLines [] = [[]]"
| "splitLines (c # cs) =
     (if c = newline then [] # splitLines cs
      else (case splitLines cs of
              l # ls \<Rightarrow> (c # l) # ls
            | [] \<Rightarrow> [[c]]))"

section \<open>The lexical context classifier (class ContextAnalyzer)\<close>

record lexical_context =
  inString :: bool
  inComment :: bool
  inRegex :: bool
  inTemplate :: bool
  inTemplateExpression :: bool
  stringChar :: "string option"
  commentType :: "string option"

text \<open>The local variables of \<^verbatim>\<open>analyzeAbsolutePosition\<close>.\<close>

record scan_state =
  idx :: int
  inSingleQuote :: bool
  inDoubleQuote :: bool
  inTemplateLit :: bool
  inSingleComment :: bool
  inMultiComment :: bool
  inRegexLit :: bool
  templateDepth :: int
  regexContext :: bool

subsection \<open>couldBeRegexStart and isEscaped\<close>

text \<open>The loop \<^verbatim>\<open>while (i >= 0 && /\s/.test(code[i])) i--\<close>.\<close>

function skipWhitespaceBack :: "string \<Rightarrow> int \<Rightarrow> int" where
  "skipWhitespaceBack code i =
     (if i \<ge> 0 \<and> testWhitespace (char_at code i) then skipWhitespaceBack code (i - 1) else i)"
  by pat_completeness auto
termination
  by (relation "measure (\<lambda>(code, i). nat (i + 1))") auto

text \<open>The loop \<^verbatim>\<open>while (wordStart >= 0 && /[a-zA-Z_$]/.test(code[wordStart])) wordStart--\<close>.\<close>

function skipWordBack :: "string \<Rightarrow> int \<Rightarrow> int" where
  "skipWordBack code wordStart =
     (if wordStart \<ge> 0 \<and> testWordChar (char_at code wordStart)
      then skipWordBack code (wordStart - 1) else wordStart)"
  by pat_completeness auto
termination
  by (relation "measure (\<lambda>(code, i). nat (i + 1))") auto

definition regexPreceders :: "char list" where
  "regexPreceders = ''([{,;:!&|?+-*/%=<>^~''"

definition regexKeywords :: "string list" where
  "regexKeywords = [''return'', ''throw'', ''case'', ''in'', ''of'', ''delete'', ''void'',
               ''typeof'', ''new'', ''instanceof'']"

definition couldBeRegexStart :: "string \<Rightarrow> int \<Rightarrow> bool" where
  "couldBeRegexStart code position =
     (let i = skipWhitespaceBack code (position - 1) in
      if i < 0 then True
      else if (case char_at code i of None \<Rightarrow> False | Some prevChar \<Rightarrow> prevChar \<in> set regexPreceders)
      then True
      else (let wordStart = skipWordBack code i;
                word = slice code (wordStart + 1) (i + 1)
            in word \<in> set regexKeywords))"

text \<open>The loop of \<^verbatim>\<open>isEscaped\<close>: the backslashes that end at index \<open>i\<close>, counted.\<close>

function countBackslashes :: "string \<Rightarrow> int \<Rightarrow> nat \<Rightarrow> nat" where
  "countBackslashes code i escapeCount =
     (if i \<ge> 0 \<and> char_at code i = Some backslash
      then countBackslashes code (i - 1) (escapeCount + 1) else escapeCount)"
  by pat_completeness auto
termination
  by (relation "measure (\<lambda>(code, i, n). nat (i + 1))") auto

definition isEscaped :: "string \<Rightarrow> int \<Rightarrow> bool" where
  "isEscaped code position = (countBackslashes code (position - 1) 0 mod 2 = 1)"

subsection \<open>analyzeAbsolutePosition\<close>

text \<open>
  The loop body is a sequence of guarded blocks. Each block is a function on the local
  variables, named after the comment that heads it in the source; \<open>char\<close> and \<open>nextChar\<close>
  are \<^verbatim>\<open>code[i]\<close> and \<^verbatim>\<open>code[i + 1]\<close>.
\<close>

text \<open>"Handle regular expressions": the slash may open a regex literal.\<close>

definition handleRegexStart :: "string \<Rightarrow> char option \<Rightarrow> scan_state \<Rightarrow> scan_state" where
  "handleRegexStart code char s =
     (if \<not> inSingleQuote s \<and> \<not> inDoubleQuote s \<and> \<not> inTemplateLit s \<and> char = Some CHR ''/''
      then (if couldBeRegexStart code (idx s)
            then s\<lparr>inRegexLit := True, regexContext := True\<rparr> else s)
      else s)"

text \<open>"End regex": run on the same character, right after the block above.\<close>

definition handleRegexEnd :: "string \<Rightarrow> char option \<Rightarrow> scan_state \<Rightarrow> scan_state" where
  "handleRegexEnd code char s =
     (if inRegexLit s \<and> char = Some CHR ''/'' \<and> \<not> isEscaped code (idx s)
      then s\<lparr>inRegexLit := False, regexContext := False\<rparr> else s)"

text \<open>"Single quotes", "Double quotes" and "Template literals".\<close>

definition handleSingleQuote :: "char option \<Rightarrow> scan_state \<Rightarrow> scan_state" where
  "handleSingleQuote char s =
     (if char = Some squote \<and> \<not> inDoubleQuote s \<and> \<not> inTemplateLit s
      then s\<lparr>inSingleQuote := \<not> inSingleQuote s\<rparr> else s)"

definition handleDoubleQuote :: "char option \<Rightarrow> scan_state \<Rightarrow> scan_state" where
  "handleDoubleQuote char s =
     (if char = Some dquote \<and> \<not> inSingleQuote s \<and> \<not> inTemplateLit s
      then s\<lparr>inDoubleQuote := \<not> inDoubleQuote s\<rparr> else s)"

definition handleBacktick :: "char option \<Rightarrow> scan_state \<Rightarrow> scan_state" where
  "handleBacktick char s =
     (if char = Some backtick \<and> \<not> inSingleQuote s \<and> \<not> inDoubleQuote s
      then (if inTemplateLit s
            then (if templateDepth s - 1 = 0
                  then s\<lparr>templateDepth := templateDepth s - 1, inTemplateLit := False\<rparr>
                  else s\<lparr>templateDepth := templateDepth s - 1\<rparr>)
            else s\<lparr>inTemplateLit := True, templateDepth := 1\<rparr>)
      else s)"

text \<open>
  "Template expressions", the closing brace, and the final \<^verbatim>\<open>i++\<close>: \<^verbatim>\<open>${\<close> is
  skipped as two characters by a \<^verbatim>\<open>continue\<close>.
\<close>

definition handleTemplateExpression :: "char option \<Rightarrow> char option \<Rightarrow> scan_state \<Rightarrow> scan_state" where
  "handleTemplateExpression char nextChar s =
     (if inTemplateLit s \<and> char = Some CHR ''$'' \<and> nextChar = Some CHR ''{''
      then s\<lparr>templateDepth := templateDepth s + 1, idx := idx s + 2\<rparr>
      else (if inTemplateLit s \<and> char = Some CHR ''}'' \<and> templateDepth s > 1
            then s\<lparr>templateDepth := templateDepth s - 1, idx := idx s + 1\<rparr>
            else s\<lparr>idx := idx s + 1\<rparr>))"

text \<open>
  The body from "Handle regular expressions" to the final \<^verbatim>\<open>i++\<close>, reached only
  outside comments. The strings and templates are handled only \<^verbatim>\<open>if (!inRegex)\<close>.
\<close>

definition scanCodeChar :: "string \<Rightarrow> char option \<Rightarrow> char option \<Rightarrow> scan_state \<Rightarrow> scan_state" where
  "scanCodeChar code char nextChar s =
     (let s2 = handleRegexEnd code char (handleRegexStart code char s)
      in if \<not> inRegexLit s2
         then handleTemplateExpression char nextChar
                (handleBacktick char (handleDoubleQuote char (handleSingleQuote char s2)))
         else s2\<lparr>idx := idx s2 + 1\<rparr>)"

text \<open>"End single-line comment at newline": no \<^verbatim>\<open>continue\<close>, the body goes on.\<close>

definition endSingleComment :: "char option \<Rightarrow> scan_state \<Rightarrow> scan_state" where
  "endSingleComment char s =
     (if inSingleComment s \<and> char = Some newline then s\<lparr>inSingleComment := False\<rparr> else s)"

text \<open>
  "Handle multi-line comments", "End multi-line comment" and "Skip if in any comment",
  then the rest of the body.
\<close>

definition scanCommentChar :: "string \<Rightarrow> char option \<Rightarrow> char option \<Rightarrow> scan_state \<Rightarrow> scan_state" where
  "scanCommentChar code char nextChar s =
     (if \<not> inSingleQuote s \<and> \<not> inDoubleQuote s \<and> \<not> inTemplateLit s
         \<and> \<not> inSingleComment s \<and> \<not> inRegexLit s
         \<and> char = Some CHR ''/'' \<and> nextChar = Some CHR ''*''
      then s\<lparr>inMultiComment := True, idx := idx s + 2\<rparr>
      else if inMultiComment s \<and> char = Some CHR ''*'' \<and> nextChar = Some CHR ''/''
      then s\<lparr>inMultiComment := False, idx := idx s + 2\<rparr>
      else if inSingleComment s \<or> inMultiComment s
      then s\<lparr>idx := idx s + 1\<rparr>
      else scanCodeChar code char nextChar s)"

text \<open>
  One pass of the loop body: "Handle escape sequences" and "Handle single-line comments"
  first, each \<^verbatim>\<open>continue\<close> a branch.
\<close>

definition scanStep :: "string \<Rightarrow> scan_state \<Rightarrow> scan_state" where
  "scanStep code s =
     (let char = char_at code (idx s);
          nextChar = char_at code (idx s + 1)
      in if char = Some backslash
            \<and> (inSingleQuote s \<or> inDoubleQuote s \<or> inTemplateLit s \<or> inRegexLit s)
         then s\<lparr>idx := idx s + 2\<rparr>
         else if \<not> inSingleQuote s \<and> \<not> inDoubleQuote s \<and> \<not> inTemplateLit s
                 \<and> \<not> inMultiComment s \<and> \<not> inRegexLit s
                 \<and> char = Some CHR ''/'' \<and> nextChar = Some CHR ''/''
         then s\<lparr>inSingleComment := True, idx := idx s + 2\<rparr>
         else scanCommentChar code char nextChar (endSingleComment char s))"

lemma idx_handleRegexStart [simp]: "idx (handleRegexStart code c s) = idx s"
  by (simp add: handleRegexStart_def)

lemma idx_handleRegexEnd [simp]: "idx (handleRegexEnd code c s) = idx s"
  by (simp add: handleRegexEnd_def)

lemma idx_handleSingleQuote [simp]: "idx (handleSingleQuote c s) = idx s"
  by (simp add: handleSingleQuote_def)

lemma idx_handleDoubleQuote [simp]: "idx (handleDoubleQuote c s) = idx s"
  by (simp add: handleDoubleQuote_def)

lemma idx_handleBacktick [simp]: "idx (handleBacktick c s) = idx s"
  by (simp add: handleBacktick_def)

lemma idx_endSingleComment [simp]: "idx (endSingleComment c s) = idx s"
  by (simp add: endSingleComment_def)

lemma idx_handleTemplateExpression: "idx s < idx (handleTemplateExpression c n s)"
  by (simp add: handleTemplateExpression_def)

lemma idx_scanCodeChar: "idx s < idx (scanCodeChar code c n s)"
proof (cases "inRegexLit (handleRegexEnd code c (handleRegexStart code c s))")
  case True
  then show ?thesis by (simp add: scanCodeChar_def)
next
  case False
  then show ?thesis
    using idx_handleTemplateExpression
      [of "handleBacktick c (handleDoubleQuote c (handleSingleQuote c
             (handleRegexEnd code c (handleRegexStart code c s))))" c n]
    by (simp add: scanCodeChar_def)
qed

lemma idx_scanCommentChar: "idx s < idx (scanCommentChar code c n s)"
  using idx_scanCodeChar [of s code c n] by (simp add: scanCommentChar_def)

lemma idx_scanStep: "idx s < idx (scanStep code s)"
  using idx_scanCommentChar [of "endSingleComment (char_at code (idx s)) s" code]
  by (simp add: scanStep_def Let_def)

text \<open>The loop \<^verbatim>\<open>while (i < position && i < code.length)\<close>.\<close>

function scanLoop :: "string \<Rightarrow> int \<Rightarrow> scan_state \<Rightarrow> scan_state" where
  "scanLoop code position s =
     (if idx s < position \<and> idx s < int (length code)
      then scanLoop code position (scanStep code s) else s)"
  by pat_completeness auto
termination
proof (relation "measure (\<lambda>(code, position, s). nat (int (length code) - idx s))")
  show "wf (measure (\<lambda>(code, position, s). nat (int (length code) - idx s)))"
    by simp
next
  fix code :: string and position :: int and s :: scan_state
  assume "idx s < position \<and> idx s < int (length code)"
  then show "((code, position, scanStep code s), (code, position, s))
      \<in> measure (\<lambda>(code, position, s). nat (int (length code) - idx s))"
    using idx_scanStep [of s code] by simp
qed

definition initialState :: scan_state where
  "initialState = \<lparr>idx = 0, inSingleQuote = False, inDoubleQuote = False,
     inTemplateLit = False, inSingleComment = False, inMultiComment = False,
     inRegexLit = False, templateDepth = 0, regexContext = False\<rparr>"

definition defaultContext :: lexical_context where
  "defaultContext = \<lparr>inString = False, inComment = False, inRegex = False,
     inTemplate = False, inTemplateExpression = False, stringChar = None, commentType = None\<rparr>"

text \<open>The statements after the loop: the flags, then the three optional fields in order.\<close>

definition contextOf :: "scan_state \<Rightarrow> lexical_context" where
  "contextOf s =
     (let c0 = defaultContext\<lparr>
            inString := inSingleQuote s \<or> inDoubleQuote s,
            inComment := inSingleComment s \<or> inMultiComment s,
            inRegex := inRegexLit s,
            inTemplate := inTemplateLit s,
            inTemplateExpression := inTemplateLit s \<and> templateDepth s > 1\<rparr>;
          c1 = (if inString c0
                then c0\<lparr>stringChar := Some (if inSingleQuote s then [squote] else [dquote])\<rparr>
                else c0);
          c2 = (if inComment c1
                then c1\<lparr>commentType := Some (if inSingleComment s then ''single'' else ''multi'')\<rparr>
                else c1)
      in if inTemplate c2 then c2\<lparr>stringChar := Some [backtick]\<rparr> else c2)"

definition analyzeAbsolutePosition :: "string \<Rightarrow> int \<Rightarrow> lexical_context" where
  "analyzeAbsolutePosition code position = contextOf (scanLoop code position initialState)"

text \<open>The four position predicates scan directly, without the cache.\<close>

definition isInString :: "string \<Rightarrow> int \<Rightarrow> bool" where
  "isInString code position = inString (analyzeAbsolutePosition code position)"

definition isInComment :: "string \<Rightarrow> int \<Rightarrow> bool" where
  "isInComment code position = inComment (analyzeAbsolutePosition code position)"

definition isInRegex :: "string \<Rightarrow> int \<Rightarrow> bool" where
  "isInRegex code position = inRegex (analyzeAbsolutePosition code position)"

definition isInTemplateString :: "string \<Rightarrow> int \<Rightarrow> bool" where
  "isInTemplateString code position = inTemplate (analyzeAbsolutePosition code position)"

subsection \<open>getAbsolutePosition\<close>

text \<open>
  What the code can throw. Reading \<^verbatim>\<open>lines[i].length\<close> when \<^verbatim>\<open>lines[i]\<close> is
  \<^verbatim>\<open>undefined\<close> raises a TypeError; \<^verbatim>\<open>throw new Error(m)\<close> raises an Error with
  message \<open>m\<close>.
\<close>

datatype js_error = TypeError | Error string

text \<open>
  The loop \<^verbatim>\<open>for (let i = 0; i < line - 1; i++) position += lines[i].length + 1\<close>:
  the first argument is the lines from index \<open>i\<close> on, the second the passes left.
\<close>

fun sumLineLengths :: "string list \<Rightarrow> nat \<Rightarrow> int \<Rightarrow> js_error + int" where
  "sumLineLengths ls 0 position = Inr position"
| "sumLineLengths [] (Suc n) position = Inl TypeError"
| "sumLineLengths (l # ls) (Suc n) position = sumLineLengths ls n (position + int (length l) + 1)"

definition getAbsolutePosition :: "string \<Rightarrow> int \<Rightarrow> int \<Rightarrow> js_error + int" where
  "getAbsolutePosition code line column =
     (case sumLineLengths (splitLines code) (nat (line - 1)) 0 of
        Inl e \<Rightarrow> Inl e
      | Inr position \<Rightarrow> Inr (position + column - 1))"

subsection \<open>The cache and analyzePosition\<close>

text \<open>Numbers in template strings: the decimal digits, a minus sign first when negative.\<close>

function decimal :: "nat \<Rightarrow> string" where
  "decimal n = (if n < 10 then [char_of (48 + n)] else decimal (n div 10) @ [char_of (48 + n mod 10)])"
  by pat_completeness auto
termination
  by (relation "measure (\<lambda>n. n)") auto

definition showInt :: "int \<Rightarrow> string" where
  "showInt k = (if k < 0 then CHR ''-'' # decimal (nat (- k)) else decimal (nat k))"

text \<open>An optional string in a template string: \<^verbatim>\<open>undefined\<close> prints as "undefined".\<close>

definition showOpt :: "string option \<Rightarrow> string" where
  "showOpt v = (case v of None \<Rightarrow> ''undefined'' | Some s \<Rightarrow> s)"

text \<open>
  \<^verbatim>\<open>contextCache\<close>, a Map from the key text to the stored context. The key is
  \<^verbatim>\<open>`${code.length}-${absolutePos}`\<close>.
\<close>

type_synonym context_cache = "string \<rightharpoonup> lexical_context"

definition cacheKeyOf :: "string \<Rightarrow> int \<Rightarrow> string" where
  "cacheKeyOf code absolutePos = decimal (length code) @ ''-'' @ showInt absolutePos"

text \<open>
  The analyzer instance is its cache: every method that touches it takes the cache and
  returns it. A throw leaves the cache as it was.
\<close>

definition analyzePosition ::
  "context_cache \<Rightarrow> string \<Rightarrow> int \<Rightarrow> int \<Rightarrow> (js_error + lexical_context) \<times> context_cache" where
  "analyzePosition cache code line column =
     (case getAbsolutePosition code line column of
        Inl e \<Rightarrow> (Inl e, cache)
      | Inr absolutePos \<Rightarrow>
          (let cacheKey = cacheKeyOf code absolutePos in
           case cache cacheKey of
             Some cached \<Rightarrow> (Inr cached, cache)
           | None \<Rightarrow>
               (let ctx = analyzeAbsolutePosition code absolutePos
                in (Inr ctx, cache(cacheKey \<mapsto> ctx)))))"

definition clearCache :: "context_cache \<Rightarrow> context_cache" where
  "clearCache cache = Map.empty"

subsection \<open>findSafeFixZone\<close>

record safe_zone =
  isSafe :: bool
  reason :: string
  zoneContext :: lexical_context

definition reasonString :: "lexical_context \<Rightarrow> string" where
  "reasonString ctx = ''Position is inside a string literal ('' @ showOpt (stringChar ctx) @ '')''"

definition reasonComment :: "lexical_context \<Rightarrow> string" where
  "reasonComment ctx = ''Position is inside a '' @ showOpt (commentType ctx) @ '' comment''"

definition reasonRegex :: string where
  "reasonRegex = ''Position is inside a regular expression literal''"

definition reasonTemplate :: string where
  "reasonTemplate = ''Position is inside template literal text''"

definition reasonSafe :: string where
  "reasonSafe = ''Position is safe for modifications''"

text \<open>The four vetoes of \<^verbatim>\<open>findSafeFixZone\<close>, in the order of the source.\<close>

definition safeZoneOf :: "lexical_context \<Rightarrow> safe_zone" where
  "safeZoneOf ctx =
     (if inString ctx then \<lparr>isSafe = False, reason = reasonString ctx, zoneContext = ctx\<rparr>
      else if inComment ctx then \<lparr>isSafe = False, reason = reasonComment ctx, zoneContext = ctx\<rparr>
      else if inRegex ctx then \<lparr>isSafe = False, reason = reasonRegex, zoneContext = ctx\<rparr>
      else if inTemplate ctx \<and> \<not> inTemplateExpression ctx
      then \<lparr>isSafe = False, reason = reasonTemplate, zoneContext = ctx\<rparr>
      else \<lparr>isSafe = True, reason = reasonSafe, zoneContext = ctx\<rparr>)"

definition findSafeFixZone ::
  "context_cache \<Rightarrow> string \<Rightarrow> int \<Rightarrow> int \<Rightarrow> (js_error + safe_zone) \<times> context_cache" where
  "findSafeFixZone cache code line column =
     (case analyzePosition cache code line column of
        (Inl e, cache') \<Rightarrow> (Inl e, cache')
      | (Inr ctx, cache') \<Rightarrow> (Inr (safeZoneOf ctx), cache'))"

section \<open>The code validator (class CodeValidator)\<close>

text \<open>
  The two parsers the validator calls are not part of the repository: the engine's
  \<^verbatim>\<open>new Function(code)\<close> and \<^verbatim>\<open>parse\<close> of @babel/parser. They are parameters: what
  each throws on a buffer, if anything (\<open>newFunction\<close>: the error's name and message;
  \<open>babelParse\<close>: the error's message), and the message of the engine's TypeError.
\<close>

record engine =
  newFunction :: "string \<Rightarrow> (string \<times> string) option"
  babelParse :: "string \<Rightarrow> string option"
  typeErrorMessage :: string

definition errorMessage :: "engine \<Rightarrow> js_error \<Rightarrow> string" where
  "errorMessage e err = (case err of TypeError \<Rightarrow> typeErrorMessage e | Error m \<Rightarrow> m)"

datatype details =
  SyntaxIssues "string list"
| SyntaxPassed
| SyntaxThrown string string

record validation_result =
  isValid :: bool
  error :: "string option"
  warnings :: "string list"
  details :: details

subsection \<open>checkCommonSyntaxIssues\<close>

text \<open>The table \<^verbatim>\<open>brackets\<close>: the closer of each opener.\<close>

definition brackets :: "char \<Rightarrow> char option" where
  "brackets c = (if c = CHR ''('' then Some CHR '')''
                 else if c = CHR ''['' then Some CHR '']''
                 else if c = CHR ''{'' then Some CHR ''}''
                 else None)"

definition bracketValues :: "char list" where
  "bracketValues = '')]}''"

definition unmatchedMessage :: "char \<Rightarrow> nat \<Rightarrow> string" where
  "unmatchedMessage c i = ''Unmatched bracket '' @ [squote, c, squote] @ '' at position '' @ decimal i"

definition unclosedMessage :: "char \<times> nat \<Rightarrow> string" where
  "unclosedMessage item =
     ''Unclosed bracket '' @ [squote, fst item, squote] @ '' at position '' @ decimal (snd item)"

text \<open>
  The loop over the buffer: the characters from index \<open>i\<close> on, the stack (its top is
  the last element, as \<^verbatim>\<open>push\<close> and \<^verbatim>\<open>pop\<close> have it) and the issues so far. A closer
  pops the stack whether it matches or not.
\<close>

fun bracketLoop ::
  "string \<Rightarrow> nat \<Rightarrow> (char \<times> nat) list \<Rightarrow> string list \<Rightarrow> (char \<times> nat) list \<times> string list" where
  "bracketLoop [] i stack issues = (stack, issues)"
| "bracketLoop (c # rest) i stack issues =
     (if brackets c \<noteq> None then bracketLoop rest (i + 1) (stack @ [(c, i)]) issues
      else if c \<in> set bracketValues then
        (if stack = [] \<or> brackets (fst (last stack)) \<noteq> Some c
         then bracketLoop rest (i + 1) (butlast stack) (issues @ [unmatchedMessage c i])
         else bracketLoop rest (i + 1) (butlast stack) issues)
      else bracketLoop rest (i + 1) stack issues)"

text \<open>The bracket check: the loop, then one issue for each opener left on the stack.\<close>

definition bracketIssues :: "string \<Rightarrow> string list" where
  "bracketIssues code =
     (case bracketLoop code 0 [] [] of (stack, issues) \<Rightarrow> issues @ map unclosedMessage stack)"

text \<open>The parser check: the parser's message, when it throws.\<close>

definition parserIssues :: "engine \<Rightarrow> string \<Rightarrow> string list" where
  "parserIssues e code =
     (case babelParse e code of None \<Rightarrow> [] | Some m \<Rightarrow> [''Syntax error: '' @ m])"

definition checkCommonSyntaxIssues :: "engine \<Rightarrow> string \<Rightarrow> string list" where
  "checkCommonSyntaxIssues e code = bracketIssues code @ parserIssues e code"

subsection \<open>The bracket warnings, stated on positions\<close>

text \<open>
  What the bracket check reports, said without a stack, to compare the loop with. A
  closing bracket uses up the nearest opening bracket before it that is still open,
  whatever its kind: the source pops the stack before it compares the kinds. So
  whether an opener is still open is a matter of counting. \<open>surplus code a b\<close> is the
  number of openers less the number of closers at the positions \<open>a \<le> i < b\<close>.
\<close>

definition bracketWeight :: "char \<Rightarrow> int" where
  "bracketWeight c = (if brackets c \<noteq> None then 1 else if c \<in> set bracketValues then - 1 else 0)"

definition surplus :: "string \<Rightarrow> nat \<Rightarrow> nat \<Rightarrow> int" where
  "surplus code a b = sum_list (map (\<lambda>i. bracketWeight (code ! i)) [a..<b])"

text \<open>
  The opener at position \<open>j\<close> is still open after the first \<open>n\<close> characters: at no
  point after it have the closers outnumbered the openers.
\<close>

definition stillOpen :: "string \<Rightarrow> nat \<Rightarrow> nat \<Rightarrow> bool" where
  "stillOpen code n j =
     (j < n \<and> brackets (code ! j) \<noteq> None
      \<and> (\<forall>k \<in> set [Suc j..<Suc n]. 0 \<le> surplus code (Suc j) k))"

definition openList :: "string \<Rightarrow> nat \<Rightarrow> nat list" where
  "openList code n = filter (stillOpen code n) [0..<n]"

text \<open>
  An unmatched closer: a closing bracket at position \<open>i\<close> with no opener still open
  before it, or with the nearest open one of another kind. An unclosed opener: one
  still open at the end of the buffer.
\<close>

definition unmatchedCloser :: "string \<Rightarrow> nat \<Rightarrow> bool" where
  "unmatchedCloser code i =
     (code ! i \<in> set bracketValues
      \<and> (openList code i = [] \<or> brackets (code ! last (openList code i)) \<noteq> Some (code ! i)))"

definition unclosedOpener :: "string \<Rightarrow> nat \<Rightarrow> bool" where
  "unclosedOpener code j = stillOpen code (length code) j"

text \<open>
  One warning for each unmatched closer, with its bracket and position, in the order
  of the positions; then one for each unclosed opener, likewise.
\<close>

definition expectedBracketWarnings :: "string \<Rightarrow> string list" where
  "expectedBracketWarnings code =
     map (\<lambda>i. unmatchedMessage (code ! i) i) (filter (unmatchedCloser code) [0..<length code])
     @ map (\<lambda>j. unclosedMessage (code ! j, j)) (filter (unclosedOpener code) [0..<length code])"

subsection \<open>validateSyntax\<close>

definition validateSyntax :: "engine \<Rightarrow> string \<Rightarrow> validation_result" where
  "validateSyntax e code =
     (case newFunction e code of
        Some (errName, errMessage) \<Rightarrow>
          \<lparr>isValid = False, error = Some (''Syntax error: '' @ errMessage),
           warnings = [''Code contains syntax errors that prevent execution''],
           details = SyntaxThrown errMessage errName\<rparr>
      | None \<Rightarrow>
          (let syntaxIssues = checkCommonSyntaxIssues e code in
           if length syntaxIssues > 0
           then \<lparr>isValid = False, error = Some ''Syntax validation failed'',
                 warnings = syntaxIssues, details = SyntaxIssues syntaxIssues\<rparr>
           else \<lparr>isValid = True, error = None, warnings = [], details = SyntaxPassed\<rparr>))"

subsection \<open>recordFix\<close>

record fix_record =
  ruleId :: string
  fixLine :: int
  fixColumn :: int
  originalText :: string
  fixedText :: string
  timestamp :: int

text \<open>The validator instance: its history and its snapshots. The constructor's value.\<close>

record code_validator =
  fixHistory :: "fix_record list"
  codeSnapshots :: "string \<rightharpoonup> string"

definition newCodeValidator :: code_validator where
  "newCodeValidator = \<lparr>fixHistory = [], codeSnapshots = Map.empty\<rparr>"

text \<open>
  \<^verbatim>\<open>recordFix\<close>: \<^verbatim>\<open>push\<close> appends, \<^verbatim>\<open>shift\<close> removes the first entry. The record is
  the call's arguments and the clock's reading (\<^verbatim>\<open>new Date()\<close>), taken as given.
\<close>

definition recordFix :: "code_validator \<Rightarrow> fix_record \<Rightarrow> code_validator" where
  "recordFix v fixRecord =
     (let pushed = fixHistory v @ [fixRecord]
      in v\<lparr>fixHistory := (if length pushed > 100 then tl pushed else pushed)\<rparr>)"

text \<open>A sequence of \<^verbatim>\<open>recordFix\<close> calls on one validator, first call first.\<close>

fun recordFixes :: "code_validator \<Rightarrow> fix_record list \<Rightarrow> code_validator" where
  "recordFixes v [] = v"
| "recordFixes v (r # rs) = recordFixes (recordFix v r) rs"

section \<open>safeReplace\<close>

record replace_result =
  success :: bool
  resultCode :: string
  message :: string
  resultWarnings :: "string list"

text \<open>The \<^verbatim>\<open>catch\<close> block of \<^verbatim>\<open>safeReplace\<close>.\<close>

definition caughtResult :: "engine \<Rightarrow> string \<Rightarrow> js_error \<Rightarrow> replace_result" where
  "caughtResult e code err =
     \<lparr>success = False, resultCode = code,
      message = ''Error during replacement: '' @ errorMessage e err,
      resultWarnings = [''Unexpected error occurred during text replacement'']\<rparr>"

text \<open>
  \<^verbatim>\<open>safeReplace\<close> of globalFunction.jsx, on the shared analyzer (its cache) and the
  shared validator (which \<^verbatim>\<open>validateSyntax\<close> does not change).
\<close>

definition safeReplace ::
  "engine \<Rightarrow> context_cache \<Rightarrow> string \<Rightarrow> int \<Rightarrow> int \<Rightarrow> int \<Rightarrow> string
     \<Rightarrow> replace_result \<times> context_cache" where
  "safeReplace e cache code line column len replacement =
     (case findSafeFixZone cache code line column of
        (Inl err, cache') \<Rightarrow> (caughtResult e code err, cache')
      | (Inr safeZone, cache') \<Rightarrow>
          if \<not> isSafe safeZone
          then (\<lparr>success = False, resultCode = code,
                 message = ''Cannot replace text: '' @ reason safeZone,
                 resultWarnings = [''Position is not safe for modification'']\<rparr>, cache')
          else (case getAbsolutePosition code line column of
                  Inl err \<Rightarrow> (caughtResult e code err, cache')
                | Inr absolutePos \<Rightarrow>
                    (let beforeText = substring code 0 absolutePos;
                         afterText = substringFrom code (absolutePos + len);
                         newCode = beforeText @ replacement @ afterText;
                         validation = validateSyntax e newCode
                     in if \<not> isValid validation
                        then (\<lparr>success = False, resultCode = code,
                               message = ''Replacement would create invalid syntax: ''
                                         @ showOpt (error validation),
                               resultWarnings = warnings validation\<rparr>, cache')
                        else (\<lparr>success = True, resultCode = newCode,
                               message = ''Text replaced successfully'',
                               resultWarnings = []\<rparr>, cache'))))"

text \<open>
  \<^verbatim>\<open>FixerBase.safeReplace(code, start, end, replacement)\<close>, the replacement of the
  fixers' base class: it checks the bounds and throws.
\<close>

definition fixerBaseSafeReplace :: "string \<Rightarrow> int \<Rightarrow> int \<Rightarrow> string \<Rightarrow> js_error + string" where
  "fixerBaseSafeReplace code start stop replacement =
     (if start < 0 \<or> stop > int (length code) \<or> start > stop
      then Inl (Error ''Invalid replacement bounds'')
      else Inr (slice code 0 start @ replacement @ slice code stop (int (length code))))"

text \<open>
  A sequence of \<^verbatim>\<open>analyzePosition\<close> calls on one analyzer, first call first: the cache
  they leave. A call is the buffer, the line and the column.
\<close>

fun analyzeCalls :: "context_cache \<Rightarrow> (string \<times> int \<times> int) list \<Rightarrow> context_cache" where
  "analyzeCalls cache [] = cache"
| "analyzeCalls cache ((code, line, column) # rest) =
     analyzeCalls (snd (analyzePosition cache code line column)) rest"

text \<open>
  A stand-in for the two parsers, used only to run the model on examples: it rejects
  exactly the buffers that have a bracket issue. On the buffers of the examples below
  (a lone opening parenthesis, a lone identifier) it answers as the JavaScript engines
  and Babel do.
\<close>

definition sampleEngine :: engine where
  "sampleEngine =
     \<lparr>newFunction = (\<lambda>code. if bracketIssues code = [] then None
                              else Some (''SyntaxError'', ''Unexpected token'')),
      babelParse = (\<lambda>code. if bracketIssues code = [] then None else Some ''Unexpected token''),
      typeErrorMessage = ''Cannot read properties of undefined''\<rparr>"

text \<open>
  A second stand-in: the engine takes every buffer as a function body and Babel rejects
  every buffer. So they answer on a buffer that is a return statement, such as
  \<^verbatim>\<open>return ")"\<close>: a function body may return, a module may not. The message texts of both stand-ins stand for the parser's
  own; no statement below depends on them.
\<close>

definition lenientEngine :: engine where
  "lenientEngine =
     \<lparr>newFunction = (\<lambda>code. None),
      babelParse = (\<lambda>code. Some ([squote] @ ''return'' @ [squote] @ '' outside of function. (1:0)'')),
      typeErrorMessage = ''Cannot read properties of undefined''\<rparr>"

text \<open>An example history: fixes told apart by their line and time stamp.\<close>

definition sampleFix :: "nat \<Rightarrow> fix_record" where
  "sampleFix n = \<lparr>ruleId = ''semi'', fixLine = int n + 1, fixColumn = 1,
     originalText = ''x'', fixedText = ''x;'', timestamp = int n\<rparr>"

text \<open>The context of template text outside a substitution.\<close>

definition templateTextContext :: lexical_context where
  "templateTextContext = \<lparr>inString = False, inComment = False, inRegex = False,
     inTemplate = True, inTemplateExpression = False, stringChar = Some [backtick],
     commentType = None\<rparr>"

section \<open>Properties of the scanner\<close>

declare scanLoop.simps [simp del] skipWhitespaceBack.simps [simp del]
  skipWordBack.simps [simp del] countBackslashes.simps [simp del] decimal.simps [simp del]

lemma isEscaped_prev_backslash:
  assumes "isEscaped code i"
  shows "i - 1 \<ge> 0 \<and> char_at code (i - 1) = Some backslash"
proof (rule ccontr)
  assume "\<not> (i - 1 \<ge> 0 \<and> char_at code (i - 1) = Some backslash)"
  then have "countBackslashes code (i - 1) 0 = 0"
    by (subst countBackslashes.simps) auto
  with assms show False by (simp add: isEscaped_def)
qed

lemma backslash_not_whitespace: "\<not> isWhitespace backslash"
  by (simp add: isWhitespace_def backslash_def)

lemma backslash_not_word: "\<not> isWordChar backslash"
  by (simp add: isWordChar_def backslash_def)

lemma backslash_not_preceder: "backslash \<notin> set regexPreceders"
  by (simp add: regexPreceders_def backslash_def)

lemma slice_empty: "slice code (i + 1) (i + 1) = []"
  by (simp add: slice_def Let_def)

lemma empty_not_keyword: "[] \<notin> set regexKeywords"
  by (simp add: regexKeywords_def)

lemma escaped_not_regex_start:
  assumes "isEscaped code i"
  shows "\<not> couldBeRegexStart code i"
proof -
  from isEscaped_prev_backslash [OF assms]
  have nonneg: "i - 1 \<ge> 0" and prev: "char_at code (i - 1) = Some backslash" by simp_all
  have ws: "skipWhitespaceBack code (i - 1) = i - 1"
    by (subst skipWhitespaceBack.simps) (simp add: prev testWhitespace_def backslash_not_whitespace)
  have wd: "skipWordBack code (i - 1) = i - 1"
    by (subst skipWordBack.simps) (simp add: prev testWordChar_def backslash_not_word)
  have "slice code (i - 1 + 1) (i - 1 + 1) = []" by (rule slice_empty)
  then show ?thesis
    using nonneg
    by (simp add: couldBeRegexStart_def Let_def ws wd prev backslash_not_preceder empty_not_keyword)
qed

lemma regex_closed_at_once:
  assumes "\<not> inRegexLit s"
  shows "\<not> inRegexLit (handleRegexEnd code c (handleRegexStart code c s))"
  using assms escaped_not_regex_start [of code "idx s"]
  by (auto simp: handleRegexEnd_def handleRegexStart_def)


definition scanInv :: "scan_state \<Rightarrow> bool" where
  "scanInv s = (\<not> inRegexLit s
     \<and> ((inSingleComment s \<or> inMultiComment s)
          \<longrightarrow> \<not> inSingleQuote s \<and> \<not> inDoubleQuote s \<and> \<not> inTemplateLit s)
     \<and> \<not> (inSingleQuote s \<and> inDoubleQuote s)
     \<and> (inTemplateLit s \<longrightarrow> \<not> inSingleQuote s \<and> \<not> inDoubleQuote s))"

lemma scanInv_quotes:
  assumes "scanInv s" "\<not> inSingleComment s" "\<not> inMultiComment s"
  shows "scanInv (handleBacktick c (handleDoubleQuote c (handleSingleQuote c s)))"
    and "\<not> inSingleComment (handleBacktick c (handleDoubleQuote c (handleSingleQuote c s)))"
    and "\<not> inMultiComment (handleBacktick c (handleDoubleQuote c (handleSingleQuote c s)))"
  using assms
  by (auto simp: scanInv_def handleBacktick_def handleDoubleQuote_def handleSingleQuote_def)

lemma scanInv_template_expression:
  "scanInv s \<Longrightarrow> scanInv (handleTemplateExpression c n s)"
  "inSingleComment (handleTemplateExpression c n s) = inSingleComment s"
  "inMultiComment (handleTemplateExpression c n s) = inMultiComment s"
  by (auto simp: scanInv_def handleTemplateExpression_def)

lemma regex_blocks_keep:
  "inSingleQuote (handleRegexEnd code c (handleRegexStart code c s)) = inSingleQuote s"
  "inDoubleQuote (handleRegexEnd code c (handleRegexStart code c s)) = inDoubleQuote s"
  "inTemplateLit (handleRegexEnd code c (handleRegexStart code c s)) = inTemplateLit s"
  "inSingleComment (handleRegexEnd code c (handleRegexStart code c s)) = inSingleComment s"
  "inMultiComment (handleRegexEnd code c (handleRegexStart code c s)) = inMultiComment s"
  by (simp_all add: handleRegexEnd_def handleRegexStart_def)

lemma scanInv_regex_blocks:
  assumes "scanInv s"
  shows "scanInv (handleRegexEnd code c (handleRegexStart code c s))"
  using assms regex_closed_at_once [of s code c]
  by (simp add: scanInv_def regex_blocks_keep)

lemma scanInv_scanCodeChar:
  assumes "scanInv s" "\<not> inSingleComment s" "\<not> inMultiComment s"
  shows "scanInv (scanCodeChar code c n s)"
proof -
  let ?s2 = "handleRegexEnd code c (handleRegexStart code c s)"
  have inv2: "scanInv ?s2" using assms(1) by (rule scanInv_regex_blocks)
  have nc: "\<not> inSingleComment ?s2" "\<not> inMultiComment ?s2"
    using assms by (simp_all add: regex_blocks_keep)
  have nr: "\<not> inRegexLit ?s2" using inv2 by (simp add: scanInv_def)
  have "scanInv (handleTemplateExpression c n
          (handleBacktick c (handleDoubleQuote c (handleSingleQuote c ?s2))))"
    by (rule scanInv_template_expression(1)) (rule scanInv_quotes(1) [OF inv2 nc])
  with nr show ?thesis by (simp add: scanCodeChar_def Let_def)
qed

lemma scanInv_scanCommentChar:
  assumes "scanInv s"
  shows "scanInv (scanCommentChar code c n s)"
proof (cases "inSingleComment s \<or> inMultiComment s")
  case True
  with assms show ?thesis by (auto simp: scanCommentChar_def scanInv_def)
next
  case False
  then have "scanInv (scanCodeChar code c n s)"
    using assms by (simp add: scanInv_scanCodeChar)
  with False assms show ?thesis by (auto simp: scanCommentChar_def scanInv_def)
qed

lemma scanInv_endSingleComment: "scanInv s \<Longrightarrow> scanInv (endSingleComment c s)"
  by (auto simp: scanInv_def endSingleComment_def)

lemma scanInv_scanStep:
  assumes "scanInv s"
  shows "scanInv (scanStep code s)"
proof -
  have "scanInv (scanCommentChar code (char_at code (idx s)) (char_at code (idx s + 1))
          (endSingleComment (char_at code (idx s)) s))"
    using assms by (intro scanInv_scanCommentChar scanInv_endSingleComment)
  moreover have "scanInv (s\<lparr>idx := idx s + 2\<rparr>)"
    using assms by (simp add: scanInv_def)
  moreover have "\<not> inSingleQuote s \<and> \<not> inDoubleQuote s \<and> \<not> inTemplateLit s
      \<Longrightarrow> scanInv (s\<lparr>inSingleComment := True, idx := idx s + 2\<rparr>)"
    using assms by (simp add: scanInv_def)
  ultimately show ?thesis by (simp add: scanStep_def Let_def)
qed

lemma scanLoop_preserves:
  "P s \<Longrightarrow> (\<And>t. P t \<Longrightarrow> P (scanStep code t)) \<Longrightarrow> P (scanLoop code position s)"
proof (induction code position s rule: scanLoop.induct)
  case (1 code position s)
  show ?case
  proof (cases "idx s < position \<and> idx s < int (length code)")
    case True
    then have eq: "scanLoop code position s = scanLoop code position (scanStep code s)"
      by (subst scanLoop.simps) simp
    have "P (scanStep code s)" using "1.prems"(1) by (rule "1.prems"(2))
    then have "P (scanLoop code position (scanStep code s))"
      using "1.IH" [OF True] "1.prems"(2) by blast
    with eq show ?thesis by simp
  next
    case False
    then have "scanLoop code position s = s" by (subst scanLoop.simps) auto
    with "1.prems"(1) show ?thesis by simp
  qed
qed

lemma scanInv_initial: "scanInv initialState"
  by (simp add: scanInv_def initialState_def)

lemma scanInv_scanLoop: "scanInv (scanLoop code position initialState)"
  by (rule scanLoop_preserves [where P = scanInv]) (simp_all add: scanInv_initial scanInv_scanStep)

lemma scanLoop_beyond_end:
  "int (length code) \<le> position \<Longrightarrow> scanLoop code position s = scanLoop code (int (length code)) s"
proof (induction code position s rule: scanLoop.induct)
  case (1 code position s)
  show ?case
  proof (cases "idx s < int (length code)")
    case True
    with 1 have "scanLoop code position (scanStep code s)
        = scanLoop code (int (length code)) (scanStep code s)" by simp
    with True 1(2) show ?thesis
      by (subst scanLoop.simps, subst (2) scanLoop.simps) simp
  next
    case False
    then show ?thesis by (subst scanLoop.simps, subst (2) scanLoop.simps) simp
  qed
qed

lemma scanLoop_nonpositive: "position \<le> 0 \<Longrightarrow> scanLoop code position initialState = initialState"
  by (subst scanLoop.simps) (simp add: initialState_def)

lemma contextOf_initial: "contextOf initialState = defaultContext"
  by (simp add: contextOf_def initialState_def defaultContext_def)

lemma analyze_no_regex: "\<not> inRegex (analyzeAbsolutePosition code position)"
  using scanInv_scanLoop [of code position]
  by (simp add: analyzeAbsolutePosition_def contextOf_def Let_def scanInv_def)

lemma analyze_comment_exclusive:
  "inComment (analyzeAbsolutePosition code position)
   \<Longrightarrow> \<not> inString (analyzeAbsolutePosition code position)
       \<and> \<not> inTemplate (analyzeAbsolutePosition code position)"
  using scanInv_scanLoop [of code position]
  by (auto simp: analyzeAbsolutePosition_def contextOf_def Let_def scanInv_def)

text \<open>The cache of a fresh analyzer after any calls holds no in-regex context.\<close>

definition regexFreeCache :: "context_cache \<Rightarrow> bool" where
  "regexFreeCache cache = (\<forall>k ctx. cache k = Some ctx \<longrightarrow> \<not> inRegex ctx)"

lemma regexFreeCache_analyzePosition:
  assumes "regexFreeCache cache"
  shows "regexFreeCache (snd (analyzePosition cache code line column))"
    and "fst (analyzePosition cache code line column) = Inr ctx \<Longrightarrow> \<not> inRegex ctx"
  using assms analyze_no_regex
  by (auto simp: analyzePosition_def regexFreeCache_def Let_def split: sum.splits option.splits)

lemma regexFreeCache_analyzeCalls:
  "regexFreeCache cache \<Longrightarrow> regexFreeCache (analyzeCalls cache calls)"
proof (induction calls arbitrary: cache)
  case Nil
  then show ?case by simp
next
  case (Cons call calls)
  obtain code line column where call: "call = (code, line, column)" by (cases call) auto
  from Cons.prems have "regexFreeCache (snd (analyzePosition cache code line column))"
    by (rule regexFreeCache_analyzePosition(1))
  then show ?case using Cons.IH by (simp add: call)
qed

lemma regexFreeCache_empty: "regexFreeCache Map.empty"
  by (simp add: regexFreeCache_def)

lemma reason_regex_iff:
  "reason (safeZoneOf ctx) = reasonRegex \<longleftrightarrow> \<not> inString ctx \<and> \<not> inComment ctx \<and> inRegex ctx"
proof -
  have "last (reasonString ctx) = CHR '')''" by (simp add: reasonString_def)
  moreover have "last (reasonComment ctx) = CHR ''t''" by (simp add: reasonComment_def)
  moreover have "last reasonRegex = CHR ''l''" by (simp add: reasonRegex_def)
  moreover have "last reasonTemplate = CHR ''t''" by (simp add: reasonTemplate_def)
  moreover have "last reasonSafe = CHR ''s''" by (simp add: reasonSafe_def)
  ultimately have "reasonString ctx \<noteq> reasonRegex" "reasonComment ctx \<noteq> reasonRegex"
    "reasonTemplate \<noteq> reasonRegex" "reasonSafe \<noteq> reasonRegex"
    by auto
  then show ?thesis by (simp add: safeZoneOf_def)
qed

section \<open>Properties of the gate, the replacement and the history\<close>

lemma first_line_position: "getAbsolutePosition code 1 column = Inr (column - 1)"
  by (simp add: getAbsolutePosition_def)

text \<open>
  \<^verbatim>\<open>getAbsolutePosition\<close> throws exactly when the line is more than one past the
  last line of the buffer; a fresh analyzer returns the direct scan.
\<close>

lemma sumLineLengths_throws: "(\<exists>e. sumLineLengths ls n position = Inl e) \<longleftrightarrow> length ls < n"
  by (induction ls n position rule: sumLineLengths.induct) auto

lemma getAbsolutePosition_throws:
  "(\<exists>e. getAbsolutePosition code line column = Inl e)
   \<longleftrightarrow> int (length (splitLines code)) + 1 < line"
proof -
  have "(\<exists>e. getAbsolutePosition code line column = Inl e)
        \<longleftrightarrow> (\<exists>e. sumLineLengths (splitLines code) (nat (line - 1)) 0 = Inl e)"
    by (auto simp: getAbsolutePosition_def split: sum.splits)
  also have "\<dots> \<longleftrightarrow> length (splitLines code) < nat (line - 1)"
    by (rule sumLineLengths_throws)
  also have "\<dots> \<longleftrightarrow> int (length (splitLines code)) + 1 < line"
    by auto
  finally show ?thesis .
qed

lemma analyzePosition_fresh:
  "getAbsolutePosition code line column = Inr absolutePos
   \<Longrightarrow> fst (analyzePosition Map.empty code line column)
       = Inr (analyzeAbsolutePosition code absolutePos)"
  by (simp add: analyzePosition_def Let_def)

lemma findSafeFixZone_on_line_1:
  assumes "cache (cacheKeyOf code (column - 1)) = None
           \<or> cache (cacheKeyOf code (column - 1)) = Some (analyzeAbsolutePosition code (column - 1))"
  shows "fst (findSafeFixZone cache code 1 column)
         = Inr (safeZoneOf (analyzeAbsolutePosition code (column - 1)))"
  using assms
  by (auto simp: findSafeFixZone_def analyzePosition_def first_line_position Let_def)

lemma safeZoneOf_templateText:
  "safeZoneOf templateTextContext
   = \<lparr>isSafe = False, reason = reasonTemplate, zoneContext = templateTextContext\<rparr>"
  by (simp add: safeZoneOf_def templateTextContext_def)

lemma findSafeFixZone_precedence:
  "(case findSafeFixZone cache code line column of
      (Inl err, cache') \<Rightarrow> fst (analyzePosition cache code line column) = Inl err
    | (Inr zone, cache') \<Rightarrow>
        (let ctx = zoneContext zone in
         fst (analyzePosition cache code line column) = Inr ctx
         \<and> reason zone =
             (if inString ctx then reasonString ctx
              else if inComment ctx then reasonComment ctx
              else if inRegex ctx then reasonRegex
              else if inTemplate ctx \<and> \<not> inTemplateExpression ctx then reasonTemplate
              else reasonSafe)
         \<and> isSafe zone =
             (\<not> inString ctx \<and> \<not> inComment ctx \<and> \<not> inRegex ctx
              \<and> \<not> (inTemplate ctx \<and> \<not> inTemplateExpression ctx))))"
  by (simp add: findSafeFixZone_def safeZoneOf_def Let_def split: prod.splits sum.splits)

text \<open>The scanner on the template \<^verbatim>\<open>`//not a comment`\<close>, offset by offset.\<close>

lemma comment_look_alike_1_4:
  "analyzeAbsolutePosition ''`//not a comment`'' 1 = templateTextContext
   \<and> analyzeAbsolutePosition ''`//not a comment`'' 2 = templateTextContext
   \<and> analyzeAbsolutePosition ''`//not a comment`'' 3 = templateTextContext
   \<and> analyzeAbsolutePosition ''`//not a comment`'' 4 = templateTextContext"
  by code_simp

lemma comment_look_alike_5_8:
  "analyzeAbsolutePosition ''`//not a comment`'' 5 = templateTextContext
   \<and> analyzeAbsolutePosition ''`//not a comment`'' 6 = templateTextContext
   \<and> analyzeAbsolutePosition ''`//not a comment`'' 7 = templateTextContext
   \<and> analyzeAbsolutePosition ''`//not a comment`'' 8 = templateTextContext"
  by code_simp

lemma comment_look_alike_9_12:
  "analyzeAbsolutePosition ''`//not a comment`'' 9 = templateTextContext
   \<and> analyzeAbsolutePosition ''`//not a comment`'' 10 = templateTextContext
   \<and> analyzeAbsolutePosition ''`//not a comment`'' 11 = templateTextContext
   \<and> analyzeAbsolutePosition ''`//not a comment`'' 12 = templateTextContext"
  by code_simp

lemma comment_look_alike_13_16:
  "analyzeAbsolutePosition ''`//not a comment`'' 13 = templateTextContext
   \<and> analyzeAbsolutePosition ''`//not a comment`'' 14 = templateTextContext
   \<and> analyzeAbsolutePosition ''`//not a comment`'' 15 = templateTextContext
   \<and> analyzeAbsolutePosition ''`//not a comment`'' 16 = templateTextContext"
  by code_simp

lemma comment_look_alike:
  assumes "1 \<le> p" "p \<le> 16"
  shows "analyzeAbsolutePosition ''`//not a comment`'' p = templateTextContext"
proof -
  from assms have "p = 1 \<or> p = 2 \<or> p = 3 \<or> p = 4 \<or> p = 5 \<or> p = 6 \<or> p = 7 \<or> p = 8
      \<or> p = 9 \<or> p = 10 \<or> p = 11 \<or> p = 12 \<or> p = 13 \<or> p = 14 \<or> p = 15 \<or> p = 16"
    by presburger
  then show ?thesis
    using comment_look_alike_1_4 comment_look_alike_5_8 comment_look_alike_9_12
      comment_look_alike_13_16
    by blast
qed

lemma substring_prefix: "substring code 0 p = take (nat p) code"
  by (simp add: substring_def Let_def min_def max_def)

lemma substringFrom_suffix: "substringFrom code q = drop (nat q) code"
  by (auto simp: substringFrom_def substring_def Let_def min_def max_def)

lemma recordFix_history:
  assumes "length (fixHistory v) \<le> 100"
  shows "fixHistory (recordFix v r)
         = drop (length (fixHistory v @ [r]) - 100) (fixHistory v @ [r])"
proof (cases "length (fixHistory v) = 100")
  case True
  then obtain x xs where h: "fixHistory v = x # xs" and xs: "length xs = 99"
    by (cases "fixHistory v") auto
  show ?thesis by (simp add: recordFix_def Let_def h xs)
next
  case False
  with assms show ?thesis by (simp add: recordFix_def Let_def)
qed

lemma recordFix_bounded:
  assumes "length (fixHistory v) \<le> 100"
  shows "length (fixHistory (recordFix v r)) \<le> 100"
  using assms by (simp add: recordFix_history)

lemma recordFixes_history:
  "length (fixHistory v) \<le> 100
   \<Longrightarrow> fixHistory (recordFixes v rs)
       = drop (length (fixHistory v @ rs) - 100) (fixHistory v @ rs)"
proof (induction rs arbitrary: v)
  case Nil
  then show ?case by simp
next
  case (Cons r rs)
  let ?v = "recordFix v r"
  have ih: "fixHistory (recordFixes ?v rs)
        = drop (length (fixHistory ?v @ rs) - 100) (fixHistory ?v @ rs)"
    using Cons.prems by (intro Cons.IH recordFix_bounded)
  show ?case
  proof (cases "length (fixHistory v) = 100")
    case True
    then obtain x xs where h: "fixHistory v = x # xs" and xs: "length xs = 99"
      by (cases "fixHistory v") auto
    have "fixHistory ?v = xs @ [r]"
      by (simp add: recordFix_def Let_def h xs)
    with ih show ?thesis by (simp add: h xs)
  next
    case False
    with Cons.prems have "fixHistory ?v = fixHistory v @ [r]"
      by (simp add: recordFix_def Let_def)
    with ih show ?thesis by simp
  qed
qed

text \<open>
  On an analyzer whose cache holds nothing for the query, or the buffer's own context,
  every offset inside the template \<^verbatim>\<open>`//not a comment`\<close> gets the template-text veto.
\<close>

lemma template_text_veto_without_stale_entry:
  assumes "1 \<le> p" "p \<le> 16"
    and "analyzerCache (cacheKeyOf ''`//not a comment`'' p) = None
         \<or> analyzerCache (cacheKeyOf ''`//not a comment`'' p)
            = Some (analyzeAbsolutePosition ''`//not a comment`'' p)"
  shows "fst (findSafeFixZone analyzerCache ''`//not a comment`'' 1 (p + 1))
         = Inr \<lparr>isSafe = False, reason = reasonTemplate, zoneContext = templateTextContext\<rparr>"
  using findSafeFixZone_on_line_1 [of analyzerCache "''`//not a comment`''" "p + 1"] assms
  by (simp add: comment_look_alike safeZoneOf_templateText)

section \<open>Properties of the bracket scan\<close>

text \<open>One pass of the loop of \<^verbatim>\<open>checkCommonSyntaxIssues\<close>, on the stack and the issues.\<close>

definition bracketStep ::
  "char \<Rightarrow> nat \<Rightarrow> (char \<times> nat) list \<times> string list \<Rightarrow> (char \<times> nat) list \<times> string list" where
  "bracketStep c i acc =
     (case acc of (stack, issues) \<Rightarrow>
        if brackets c \<noteq> None then (stack @ [(c, i)], issues)
        else if c \<in> set bracketValues then
          (if stack = [] \<or> brackets (fst (last stack)) \<noteq> Some c
           then (butlast stack, issues @ [unmatchedMessage c i])
           else (butlast stack, issues))
        else (stack, issues))"

lemma bracketLoop_snoc:
  "bracketLoop (xs @ [c]) i stack issues
   = bracketStep c (i + length xs) (bracketLoop xs i stack issues)"
proof (induction xs arbitrary: i stack issues)
  case Nil
  show ?case by (simp add: bracketStep_def)
next
  case (Cons x xs)
  then show ?case by simp
qed

lemma surplus_empty [simp]: "surplus code a a = 0"
  by (simp add: surplus_def)

lemma surplus_Suc: "a \<le> b \<Longrightarrow> surplus code a (Suc b) = surplus code a b + bracketWeight (code ! b)"
  by (simp add: surplus_def)

lemma stillOpen_less: "stillOpen code n j \<Longrightarrow> j < n"
  by (simp add: stillOpen_def)

lemma stillOpen_nonneg: "stillOpen code n j \<Longrightarrow> 0 \<le> surplus code (Suc j) n"
  by (simp add: stillOpen_def)

lemma stillOpen_Suc:
  "j < n \<Longrightarrow> stillOpen code (Suc n) j \<longleftrightarrow> stillOpen code n j \<and> 0 \<le> surplus code (Suc j) (Suc n)"
  by (auto simp: stillOpen_def less_Suc_eq_le)

lemma stillOpen_self: "stillOpen code (Suc n) n \<longleftrightarrow> brackets (code ! n) \<noteq> None"
  by (auto simp: stillOpen_def)

lemma opener_not_closer: "brackets c \<noteq> None \<Longrightarrow> c \<notin> set bracketValues"
  by (auto simp: brackets_def bracketValues_def split: if_splits)

lemma openList_less: "j \<in> set (openList code n) \<Longrightarrow> j < n"
  by (simp add: openList_def)

lemma openList_nth_less: "p < length (openList code n) \<Longrightarrow> openList code n ! p < n"
  using openList_less nth_mem by blast

lemma openList_Suc:
  "openList code (Suc n)
   = filter (\<lambda>j. 0 \<le> surplus code (Suc j) (Suc n)) (openList code n)
     @ (if brackets (code ! n) \<noteq> None then [n] else [])"
proof -
  have "filter (stillOpen code (Suc n)) [0..<n]
        = filter (\<lambda>j. stillOpen code n j \<and> 0 \<le> surplus code (Suc j) (Suc n)) [0..<n]"
    by (rule filter_cong) (simp_all add: stillOpen_Suc)
  also have "\<dots> = filter (\<lambda>j. 0 \<le> surplus code (Suc j) (Suc n)) (openList code n)"
    by (simp add: openList_def conj_commute)
  finally show ?thesis
    by (simp add: openList_def stillOpen_self)
qed

text \<open>The surplus above each open opener is the number of open openers after it.\<close>

definition heights :: "string \<Rightarrow> nat \<Rightarrow> bool" where
  "heights code n =
     (\<forall>p < length (openList code n).
        surplus code (Suc (openList code n ! p)) n = int (length (openList code n) - 1 - p))"

lemma surplus_step:
  "j \<in> set (openList code n)
   \<Longrightarrow> surplus code (Suc j) (Suc n) = surplus code (Suc j) n + bracketWeight (code ! n)"
  using openList_less [of j code n] by (simp add: surplus_Suc)

lemma openList_nonneg: "j \<in> set (openList code n) \<Longrightarrow> 0 \<le> surplus code (Suc j) n"
  by (simp add: openList_def stillOpen_nonneg)

lemma openList_Suc_opener:
  assumes "brackets (code ! n) \<noteq> None"
  shows "openList code (Suc n) = openList code n @ [n]"
proof -
  have w: "bracketWeight (code ! n) = 1" using assms by (simp add: bracketWeight_def)
  have "filter (\<lambda>j. 0 \<le> surplus code (Suc j) (Suc n)) (openList code n) = openList code n"
    using openList_nonneg [of _ code n] by (simp add: surplus_step w filter_id_conv)
  then show ?thesis using assms by (simp add: openList_Suc)
qed

lemma openList_Suc_other:
  assumes "brackets (code ! n) = None" "code ! n \<notin> set bracketValues"
  shows "openList code (Suc n) = openList code n"
proof -
  have w: "bracketWeight (code ! n) = 0" using assms by (simp add: bracketWeight_def)
  have "filter (\<lambda>j. 0 \<le> surplus code (Suc j) (Suc n)) (openList code n) = openList code n"
    using openList_nonneg [of _ code n] by (simp add: surplus_step w filter_id_conv)
  then show ?thesis using assms by (simp add: openList_Suc)
qed

lemma filter_all_but_last:
  assumes "\<forall>p < length xs. Q (xs ! p) \<longleftrightarrow> Suc p < length xs"
  shows "filter Q xs = butlast xs"
proof (cases xs rule: rev_cases)
  case Nil
  then show ?thesis by simp
next
  case (snoc ys y)
  have "Q (ys ! p)" if "p < length ys" for p
    using assms [rule_format, of p] that by (simp add: snoc nth_append)
  then have "\<forall>x \<in> set ys. Q x" by (metis in_set_conv_nth)
  moreover have "\<not> Q y" using assms [rule_format, of "length ys"] by (simp add: snoc)
  ultimately show ?thesis by (simp add: snoc filter_id_conv)
qed

lemma openList_Suc_closer:
  assumes "heights code n" "code ! n \<in> set bracketValues"
  shows "openList code (Suc n) = butlast (openList code n)"
proof -
  have nb: "brackets (code ! n) = None" using assms(2) opener_not_closer by blast
  then have w: "bracketWeight (code ! n) = - 1" using assms(2) by (simp add: bracketWeight_def)
  have "filter (\<lambda>j. 0 \<le> surplus code (Suc j) (Suc n)) (openList code n) = butlast (openList code n)"
  proof (rule filter_all_but_last, intro allI impI)
    fix p assume p: "p < length (openList code n)"
    then have "surplus code (Suc (openList code n ! p)) (Suc n)
               = int (length (openList code n) - 1 - p) - 1"
      using assms(1) by (simp add: surplus_step w heights_def)
    then show "0 \<le> surplus code (Suc (openList code n ! p)) (Suc n)
               \<longleftrightarrow> Suc p < length (openList code n)"
      using p by auto
  qed
  then show ?thesis using nb by (simp add: openList_Suc)
qed

lemma heights_0: "heights code 0"
  by (simp add: heights_def openList_def)

lemma heights_Suc:
  assumes "heights code n"
  shows "heights code (Suc n)"
proof (cases "brackets (code ! n) \<noteq> None")
  case True
  then have w: "bracketWeight (code ! n) = 1" by (simp add: bracketWeight_def)
  show ?thesis
    unfolding heights_def openList_Suc_opener [OF True]
  proof (intro allI impI)
    fix p assume "p < length (openList code n @ [n])"
    then consider "p < length (openList code n)" | "p = length (openList code n)" by force
    then show "surplus code (Suc ((openList code n @ [n]) ! p)) (Suc n)
               = int (length (openList code n @ [n]) - 1 - p)"
    proof cases
      case 1
      then show ?thesis
        using assms by (simp add: nth_append surplus_step w heights_def)
    next
      case 2
      then show ?thesis by (simp add: nth_append)
    qed
  qed
next
  case False
  show ?thesis
  proof (cases "code ! n \<in> set bracketValues")
    case True
    then have w: "bracketWeight (code ! n) = - 1" using False by (simp add: bracketWeight_def)
    show ?thesis
      unfolding heights_def openList_Suc_closer [OF assms True]
    proof (intro allI impI)
      fix p assume p: "p < length (butlast (openList code n))"
      then have p': "p < length (openList code n)" by simp
      have "butlast (openList code n) ! p = openList code n ! p"
        using p by (simp add: nth_butlast)
      then show "surplus code (Suc (butlast (openList code n) ! p)) (Suc n)
                 = int (length (butlast (openList code n)) - 1 - p)"
        using assms p p' by (simp add: surplus_step w heights_def)
    qed
  next
    case other: False
    then have w: "bracketWeight (code ! n) = 0" using False by (simp add: bracketWeight_def)
    show ?thesis
      unfolding heights_def
      using assms False other
      by (simp add: openList_Suc_other surplus_step w heights_def)
  qed
qed

lemma heights_all: "heights code n"
  by (induction n) (simp_all add: heights_0 heights_Suc)

lemma bracketLoop_take:
  "n \<le> length code
   \<Longrightarrow> bracketLoop (take n code) 0 [] []
       = (map (\<lambda>j. (code ! j, j)) (openList code n),
          map (\<lambda>i. unmatchedMessage (code ! i) i) (filter (unmatchedCloser code) [0..<n]))"
proof (induction n)
  case 0
  show ?case by (simp add: openList_def)
next
  case (Suc n)
  then have n: "n < length code" by simp
  let ?c = "code ! n"
  let ?os = "openList code n"
  have "bracketLoop (take (Suc n) code) 0 [] []
        = bracketStep ?c n (bracketLoop (take n code) 0 [] [])"
    using n bracketLoop_snoc [of "take n code" ?c 0 "[]" "[]"]
    by (simp add: take_Suc_conv_app_nth)
  also have "\<dots> = bracketStep ?c n
      (map (\<lambda>j. (code ! j, j)) ?os,
       map (\<lambda>i. unmatchedMessage (code ! i) i) (filter (unmatchedCloser code) [0..<n]))"
    using Suc.IH n by simp
  also have "\<dots> = (map (\<lambda>j. (code ! j, j)) (openList code (Suc n)),
       map (\<lambda>i. unmatchedMessage (code ! i) i) (filter (unmatchedCloser code) [0..<Suc n]))"
  proof (cases "brackets ?c \<noteq> None")
    case True
    then have "\<not> unmatchedCloser code n"
      using opener_not_closer by (simp add: unmatchedCloser_def)
    with True show ?thesis
      by (simp add: bracketStep_def openList_Suc_opener)
  next
    case False
    show ?thesis
    proof (cases "?c \<in> set bracketValues")
      case True
      have os: "openList code (Suc n) = butlast ?os"
        using heights_all True by (rule openList_Suc_closer)
      have "?os \<noteq> [] \<Longrightarrow> fst (last (map (\<lambda>j. (code ! j, j)) ?os)) = code ! last ?os"
        by (simp add: last_map)
      then have "unmatchedCloser code n
        \<longleftrightarrow> (map (\<lambda>j. (code ! j, j)) ?os = []
             \<or> brackets (fst (last (map (\<lambda>j. (code ! j, j)) ?os))) \<noteq> Some ?c)"
        using True by (auto simp: unmatchedCloser_def)
      then show ?thesis
        using True False by (simp add: bracketStep_def os map_butlast)
    next
      case other: False
      then have "\<not> unmatchedCloser code n" by (simp add: unmatchedCloser_def)
      with False other show ?thesis
        by (simp add: bracketStep_def openList_Suc_other)
    qed
  qed
  finally show ?case .
qed

lemma bracketIssues_characterised:
  "bracketIssues code
   = map (\<lambda>i. unmatchedMessage (code ! i) i) (filter (unmatchedCloser code) [0..<length code])
     @ map (\<lambda>j. unclosedMessage (code ! j, j)) (filter (unclosedOpener code) [0..<length code])"
proof -
  have "unclosedOpener code = stillOpen code (length code)"
    by (rule ext) (simp add: unclosedOpener_def)
  then show ?thesis
    using bracketLoop_take [of "length code" code]
    by (simp add: bracketIssues_def openList_def comp_def)
qed

lemma decimal_small: "n < 10 \<Longrightarrow> decimal n = [char_of (48 + n)]"
  by (subst decimal.simps) simp

lemma decimal_large:
  "\<not> n < 10 \<Longrightarrow> decimal n = decimal (n div 10) @ [char_of (48 + n mod 10)]"
  by (subst decimal.simps) simp

lemma decimal_nonempty: "decimal n \<noteq> []"
  by (cases "n < 10") (simp_all add: decimal_small decimal_large)

lemma digit_inj:
  fixes a b :: nat
  assumes "a < 10" "b < 10" "(char_of (48 + a) :: char) = char_of (48 + b)"
  shows "a = b"
proof -
  have "of_char (char_of (48 + a) :: char) = (of_char (char_of (48 + b) :: char) :: nat)"
    using assms(3) by simp
  then have "(48 + a) mod 256 = (48 + b) mod 256" by simp
  with assms(1,2) show ?thesis by simp
qed

lemma decimal_inj: "decimal m = decimal n \<Longrightarrow> m = n"
proof (induction m arbitrary: n rule: decimal.induct)
  case (1 m)
  show ?case
  proof (cases "m < 10")
    case small: True
    show ?thesis
    proof (cases "n < 10")
      case True
      with small "1.prems" show ?thesis
        by (auto simp: decimal_small dest: digit_inj)
    next
      case False
      with small "1.prems" decimal_nonempty [of "n div 10"] show ?thesis
        by (simp add: decimal_small decimal_large)
    qed
  next
    case large: False
    show ?thesis
    proof (cases "n < 10")
      case True
      with large "1.prems" decimal_nonempty [of "m div 10"] show ?thesis
        by (simp add: decimal_small decimal_large)
    next
      case False
      with large "1.prems"
      have eq: "decimal (m div 10) = decimal (n div 10)"
        and d: "(char_of (48 + m mod 10) :: char) = char_of (48 + n mod 10)"
        by (simp_all add: decimal_large)
      from eq have "m div 10 = n div 10" using "1.IH" large by simp
      moreover have "m mod 10 = n mod 10" by (rule digit_inj [OF _ _ d]) simp_all
      ultimately show ?thesis by (metis div_mult_mod_eq)
    qed
  qed
qed

lemma unmatchedMessage_inj: "unmatchedMessage c i = unmatchedMessage c' i' \<Longrightarrow> i = i'"
  by (simp add: unmatchedMessage_def decimal_inj)

lemma unclosedMessage_inj: "unclosedMessage (c, j) = unclosedMessage (c', j') \<Longrightarrow> j = j'"
  by (simp add: unclosedMessage_def decimal_inj)

lemma unmatched_not_unclosed: "unmatchedMessage c i \<noteq> unclosedMessage item"
  by (simp add: unmatchedMessage_def unclosedMessage_def)

lemma bracketIssues_distinct: "distinct (bracketIssues code)"
proof -
  have a: "distinct (map (\<lambda>i. unmatchedMessage (code ! i) i) (filter (unmatchedCloser code) [0..<length code]))"
    by (auto simp: distinct_map inj_on_def dest: unmatchedMessage_inj)
  have b: "distinct (map (\<lambda>j. unclosedMessage (code ! j, j)) (filter (unclosedOpener code) [0..<length code]))"
    by (auto simp: distinct_map inj_on_def dest: unclosedMessage_inj)
  show ?thesis
    unfolding bracketIssues_characterised
    using a b unmatched_not_unclosed by (auto simp: distinct_append)
qed

section \<open>The claims\<close>

text \<open>
  C1. The spec's regex heuristic: in \<^verbatim>\<open>x = a / b\<close> the offset right after the slash is
  not inside a regex, and in \<^verbatim>\<open>return /ab/\<close> the offset right after \<^verbatim>\<open>return /\<close> is.
  The code does not do the second: \<^verbatim>\<open>couldBeRegexStart\<close> accepts the slash at index 7,
  the scanner sets the in-regex flag, and the "End regex" block that follows clears it
  on the same slash, so offset 8 is classified as plain code. The theorem runs the code
  on both buffers.
\<close>

theorem regex_after_return_not_detected:
  "couldBeRegexStart ''return /ab/'' 7
   \<and> \<not> inRegex (analyzeAbsolutePosition ''return /ab/'' 8)
   \<and> \<not> couldBeRegexStart ''x = a / b'' 6
   \<and> \<not> inRegex (analyzeAbsolutePosition ''x = a / b'' 7)"
  by code_simp

text \<open>
  C2, as the spec states it: for every offset outside \<open>[0, length]\<close> the classifier
  returns the default context. It fails past the end: the loop stops at the end of the
  buffer and the state reached there is returned. The buffer \<^verbatim>\<open>"abc\<close> (an unclosed
  double quote) at offset 100 is classified as inside a string.
\<close>

theorem classify_past_end_counterexample:
  "int (length (dquote # ''abc'')) < 100
   \<and> inString (analyzeAbsolutePosition (dquote # ''abc'') 100)
   \<and> analyzeAbsolutePosition (dquote # ''abc'') 100 \<noteq> defaultContext"
  by code_simp

text \<open>
  C2, amended: the classifier is total (it returns a context for every buffer and every
  offset); for an offset at or below 0 it returns the default context; for an offset at
  or past the end of the buffer it returns the context of the end of the buffer.
\<close>

theorem classify_out_of_range:
  "(position \<le> 0 \<longrightarrow> analyzeAbsolutePosition code position = defaultContext)
   \<and> (int (length code) \<le> position
        \<longrightarrow> analyzeAbsolutePosition code position = analyzeAbsolutePosition code (int (length code)))"
  using scanLoop_beyond_end [of code position initialState]
  by (simp add: analyzeAbsolutePosition_def scanLoop_nonpositive contextOf_initial)

theorem classify_out_of_range_witness:
  "(-3::int) \<le> 0 \<and> analyzeAbsolutePosition ''abc'' (-3) = defaultContext
   \<and> int (length (dquote # ''abc'')) \<le> 100
   \<and> analyzeAbsolutePosition (dquote # ''abc'') 100
       = analyzeAbsolutePosition (dquote # ''abc'') (int (length (dquote # ''abc'')))"
  using classify_out_of_range [where position = "-3" and code = "''abc''"]
    classify_out_of_range [where position = 100 and code = "dquote # ''abc''"]
  by simp

text \<open>
  C3. \<^verbatim>\<open>safeReplace\<close> is atomic. For every engine, analyzer cache, buffer, location,
  length and replacement text: when the result has \<open>success = false\<close> (unsafe location,
  invalid spliced buffer, or an error caught inside), the returned code is the original
  buffer; when it has \<open>success = true\<close>, the location has an absolute offset, the
  returned code is the prefix before the offset, the replacement, and the suffix from
  offset + length on, and \<^verbatim>\<open>validateSyntax\<close> accepts that buffer.
\<close>

theorem safeReplace_atomic:
  "(\<not> success (fst (safeReplace e cache code line column len replacement))
      \<longrightarrow> resultCode (fst (safeReplace e cache code line column len replacement)) = code)
   \<and> (success (fst (safeReplace e cache code line column len replacement))
      \<longrightarrow> (\<exists>absolutePos. getAbsolutePosition code line column = Inr absolutePos
            \<and> resultCode (fst (safeReplace e cache code line column len replacement))
                = take (nat absolutePos) code @ replacement @ drop (nat (absolutePos + len)) code
            \<and> isValid (validateSyntax e
                  (resultCode (fst (safeReplace e cache code line column len replacement))))))"
  by (auto simp: safeReplace_def caughtResult_def Let_def substring_prefix substringFrom_suffix
      split: prod.splits sum.splits)

text \<open>
  C3 on two examples: a replacement inside the string \<^verbatim>\<open>"ab\<close> is refused and the
  buffer comes back unchanged; replacing \<open>b\<close> in \<^verbatim>\<open>a+b\<close> gives \<^verbatim>\<open>a+c\<close>.
\<close>

theorem safeReplace_atomic_witness:
  "\<not> success (fst (safeReplace sampleEngine Map.empty (dquote # ''ab'') 1 2 1 ''c''))
   \<and> resultCode (fst (safeReplace sampleEngine Map.empty (dquote # ''ab'') 1 2 1 ''c'')) = dquote # ''ab''
   \<and> success (fst (safeReplace sampleEngine Map.empty ''a+b'' 1 3 1 ''c''))
   \<and> getAbsolutePosition ''a+b'' 1 3 = Inr 2
   \<and> resultCode (fst (safeReplace sampleEngine Map.empty ''a+b'' 1 3 1 ''c'')) = ''a+c''
   \<and> isValid (validateSyntax sampleEngine ''a+c'')"
proof -
  have f: "\<not> success (fst (safeReplace sampleEngine Map.empty (dquote # ''ab'') 1 2 1 ''c''))"
    by code_simp
  have s: "success (fst (safeReplace sampleEngine Map.empty ''a+b'' 1 3 1 ''c''))"
    by code_simp
  have p: "getAbsolutePosition ''a+b'' 1 3 = Inr 2"
    by code_simp
  from safeReplace_atomic [of sampleEngine Map.empty "dquote # ''ab''" 1 2 1 "''c''"] f
  have r1: "resultCode (fst (safeReplace sampleEngine Map.empty (dquote # ''ab'') 1 2 1 ''c'')) = dquote # ''ab''"
    by blast
  from safeReplace_atomic [of sampleEngine Map.empty "''a+b''" 1 3 1 "''c''"] s p
  have r2: "resultCode (fst (safeReplace sampleEngine Map.empty ''a+b'' 1 3 1 ''c'')) = ''a+c''
     \<and> isValid (validateSyntax sampleEngine ''a+c'')"
    by auto
  from f s p r1 r2 show ?thesis by blast
qed

text \<open>
  C4. The spec says caching is never observable. The code keys the cache by the
  buffer's length and the offset only, so a second buffer of the same length gets the
  context of the first. One analyzer, two calls at line 1, column 3: first on \<^verbatim>\<open>'ab\<close>
  (inside a string), then on \<^verbatim>\<open>abc\<close>. The second call returns the first call's
  context, with \<open>inString = true\<close>; the direct scan of \<^verbatim>\<open>abc\<close> at offset 2 has
  \<open>inString = false\<close>; and clearing the cache between the calls changes the result.
\<close>

theorem cache_returns_other_buffer_context:
  "(case analyzePosition Map.empty (squote # ''ab'') 1 3 of
     (first, cache1) \<Rightarrow>
       (case analyzePosition cache1 ''abc'' 1 3 of
          (second, cache2) \<Rightarrow>
            first = Inr (analyzeAbsolutePosition (squote # ''ab'') 2)
            \<and> inString (analyzeAbsolutePosition (squote # ''ab'') 2)
            \<and> second = first
            \<and> \<not> inString (analyzeAbsolutePosition ''abc'' 2)
            \<and> second \<noteq> Inr (analyzeAbsolutePosition ''abc'' 2)
            \<and> fst (analyzePosition (clearCache cache1) ''abc'' 1 3)
                = Inr (analyzeAbsolutePosition ''abc'' 2)))"
  by code_simp

text \<open>
  C5. The spec says that no offset inside the template literal \<^verbatim>\<open>`//not a comment`\<close>
  is vetoed as a comment, comment detection being applied only outside strings,
  templates and regex literals. The direct scan agrees: offset 5 is in the template
  and not in a comment. The gate does not: \<^verbatim>\<open>findSafeFixZone\<close> reads the analyzer's
  cache, keyed by the buffer's length and the offset, so after one earlier call on the
  17-character buffer \<^verbatim>\<open>//aaaaaaaaaaaaaaa\<close> at line 1, column 6, the same query on the
  template returns that buffer's context and the answer is "Position is inside a single
  comment". And as no regex literal is ever tracked, the scanner opens a line comment
  inside the regex literal of \<^verbatim>\<open>x = /[//]/\<close>: offset 8 is vetoed as a comment even
  on a fresh analyzer. The theorem runs the code on both.
\<close>

theorem template_vetoed_as_comment:
  "(case findSafeFixZone (analyzeCalls Map.empty [(''//aaaaaaaaaaaaaaa'', 1, 6)])
          ''`//not a comment`'' 1 6 of
      (Inl err, cache') \<Rightarrow> False
    | (Inr zone, cache') \<Rightarrow>
        \<not> isSafe zone \<and> inComment (zoneContext zone)
        \<and> reason zone = ''Position is inside a single comment'')
   \<and> getAbsolutePosition ''`//not a comment`'' 1 6 = Inr 5
   \<and> inTemplate (analyzeAbsolutePosition ''`//not a comment`'' 5)
   \<and> \<not> inComment (analyzeAbsolutePosition ''`//not a comment`'' 5)
   \<and> couldBeRegexStart ''x = /[//]/'' 4
   \<and> inComment (analyzeAbsolutePosition ''x = /[//]/'' 8)
   \<and> fst (findSafeFixZone Map.empty ''x = /[//]/'' 1 9)
       = Inr \<lparr>isSafe = False, reason = ''Position is inside a single comment'',
              zoneContext = analyzeAbsolutePosition ''x = /[//]/'' 8\<rparr>"
  by code_simp

text \<open>
  C6. Template substitution: in the buffer \<^verbatim>\<open>`a${b}c`\<close> the offsets of \<open>b\<close> (4, and 5
  right after it) are in the template and in a template expression; the offsets of
  \<open>a\<close> and \<open>c\<close> (1 and 6, and 2 and 7 right after them) are in the template and not in
  a template expression.
\<close>

theorem template_substitution:
  "char_at ''`a${b}c`'' 1 = Some CHR ''a''
   \<and> char_at ''`a${b}c`'' 4 = Some CHR ''b''
   \<and> char_at ''`a${b}c`'' 6 = Some CHR ''c''
   \<and> inTemplate (analyzeAbsolutePosition ''`a${b}c`'' 4)
   \<and> inTemplateExpression (analyzeAbsolutePosition ''`a${b}c`'' 4)
   \<and> inTemplate (analyzeAbsolutePosition ''`a${b}c`'' 5)
   \<and> inTemplateExpression (analyzeAbsolutePosition ''`a${b}c`'' 5)
   \<and> inTemplate (analyzeAbsolutePosition ''`a${b}c`'' 1)
   \<and> \<not> inTemplateExpression (analyzeAbsolutePosition ''`a${b}c`'' 1)
   \<and> inTemplate (analyzeAbsolutePosition ''`a${b}c`'' 2)
   \<and> \<not> inTemplateExpression (analyzeAbsolutePosition ''`a${b}c`'' 2)
   \<and> inTemplate (analyzeAbsolutePosition ''`a${b}c`'' 6)
   \<and> \<not> inTemplateExpression (analyzeAbsolutePosition ''`a${b}c`'' 6)
   \<and> inTemplate (analyzeAbsolutePosition ''`a${b}c`'' 7)
   \<and> \<not> inTemplateExpression (analyzeAbsolutePosition ''`a${b}c`'' 7)"
  by code_simp

text \<open>
  C7, as the spec states it: \<^verbatim>\<open>validateSyntax\<close> always runs the bracket scan and the
  parser and returns the diagnostics of both. It fails when \<^verbatim>\<open>new Function(code)\<close>
  throws: \<^verbatim>\<open>validateSyntax\<close> then returns from its \<^verbatim>\<open>catch\<close> block before
  \<^verbatim>\<open>checkCommonSyntaxIssues\<close> is called. The buffer \<^verbatim>\<open>(\<close>, which no engine accepts,
  has an unclosed opener at position 0; \<^verbatim>\<open>checkCommonSyntaxIssues\<close> reports it, and
  the result of \<^verbatim>\<open>validateSyntax\<close> holds only the one general warning.
\<close>

theorem validateSyntax_skips_checks_counterexample:
  "newFunction sampleEngine ''('' \<noteq> None
   \<and> unclosedOpener ''('' 0
   \<and> expectedBracketWarnings ''('' = [unclosedMessage (CHR ''('', 0)]
   \<and> unclosedMessage (CHR ''('', 0) \<in> set (checkCommonSyntaxIssues sampleEngine ''('')
   \<and> warnings (validateSyntax sampleEngine ''('')
        = [''Code contains syntax errors that prevent execution'']
   \<and> unclosedMessage (CHR ''('', 0) \<notin> set (warnings (validateSyntax sampleEngine ''(''))"
  by code_simp

text \<open>
  C7, amended. \<^verbatim>\<open>checkCommonSyntaxIssues\<close> runs both the bracket scan and the parser,
  whatever either finds, and returns: one warning for each unmatched closer, with its
  bracket and position, in the order of the positions; then one for each unclosed
  opener, likewise; then the parser's message, if it threw. The bracket warnings are
  pairwise different. When \<^verbatim>\<open>new Function(code)\<close> does not throw, \<^verbatim>\<open>validateSyntax\<close>
  returns exactly these as its warnings and is valid only if there is none. When
  \<^verbatim>\<open>new Function(code)\<close> throws, the result is invalid and its only warning is the
  general one.
\<close>

theorem validateSyntax_diagnostics:
  "checkCommonSyntaxIssues e code
     = expectedBracketWarnings code
       @ (case babelParse e code of None \<Rightarrow> [] | Some m \<Rightarrow> [''Syntax error: '' @ m])
   \<and> distinct (expectedBracketWarnings code)
   \<and> (newFunction e code = None \<longrightarrow>
        warnings (validateSyntax e code) = checkCommonSyntaxIssues e code
        \<and> isValid (validateSyntax e code) = (checkCommonSyntaxIssues e code = []))
   \<and> (newFunction e code \<noteq> None \<longrightarrow>
        \<not> isValid (validateSyntax e code)
        \<and> warnings (validateSyntax e code) = [''Code contains syntax errors that prevent execution''])"
proof -
  have b: "bracketIssues code = expectedBracketWarnings code"
    by (simp add: bracketIssues_characterised expectedBracketWarnings_def)
  have d: "distinct (expectedBracketWarnings code)"
    using bracketIssues_distinct [of code] by (simp add: b)
  have c: "checkCommonSyntaxIssues e code
     = expectedBracketWarnings code
       @ (case babelParse e code of None \<Rightarrow> [] | Some m \<Rightarrow> [''Syntax error: '' @ m])"
    by (simp add: checkCommonSyntaxIssues_def parserIssues_def b)
  have v: "newFunction e code = None \<Longrightarrow>
        warnings (validateSyntax e code) = checkCommonSyntaxIssues e code
        \<and> isValid (validateSyntax e code) = (checkCommonSyntaxIssues e code = [])"
    by (simp add: validateSyntax_def Let_def)
  have t: "newFunction e code \<noteq> None \<Longrightarrow>
        \<not> isValid (validateSyntax e code)
        \<and> warnings (validateSyntax e code) = [''Code contains syntax errors that prevent execution'']"
    by (auto simp: validateSyntax_def)
  from c d v t show ?thesis by blast
qed

text \<open>
  C7 on three examples: \<^verbatim>\<open>return ")"\<close> with an engine that accepts it and a parser
  that does not (the closer at position 8 is unmatched, and the parser's message follows
  its warning); \<^verbatim>\<open>return "a)(b]c{("\<close> likewise (a closer with nothing open, a
  closer of the wrong kind, two openers left open); and \<^verbatim>\<open>(\<close> with an engine that rejects it.
\<close>

theorem validateSyntax_diagnostics_witness:
  "newFunction lenientEngine (''return '' @ [dquote] @ '')'' @ [dquote]) = None
   \<and> filter (unmatchedCloser (''return '' @ [dquote] @ '')'' @ [dquote])) [0..<10] = [8]
   \<and> expectedBracketWarnings (''return '' @ [dquote] @ '')'' @ [dquote])
       = [unmatchedMessage CHR '')'' 8]
   \<and> babelParse lenientEngine (''return '' @ [dquote] @ '')'' @ [dquote]) \<noteq> None
   \<and> \<not> isValid (validateSyntax lenientEngine (''return '' @ [dquote] @ '')'' @ [dquote]))
   \<and> warnings (validateSyntax lenientEngine (''return '' @ [dquote] @ '')'' @ [dquote]))
       = unmatchedMessage CHR '')'' 8
         # (case babelParse lenientEngine (''return '' @ [dquote] @ '')'' @ [dquote]) of
              None \<Rightarrow> [] | Some m \<Rightarrow> [''Syntax error: '' @ m])
   \<and> newFunction lenientEngine (''return '' @ [dquote] @ ''a)(b]c{('' @ [dquote]) = None
   \<and> warnings (validateSyntax lenientEngine (''return '' @ [dquote] @ ''a)(b]c{('' @ [dquote]))
       = [unmatchedMessage CHR '')'' 9, unmatchedMessage CHR '']'' 12,
          unclosedMessage (CHR ''{'', 14), unclosedMessage (CHR ''('', 15)]
         @ (case babelParse lenientEngine (''return '' @ [dquote] @ ''a)(b]c{('' @ [dquote]) of
              None \<Rightarrow> [] | Some m \<Rightarrow> [''Syntax error: '' @ m])
   \<and> newFunction sampleEngine ''('' \<noteq> None
   \<and> \<not> isValid (validateSyntax sampleEngine ''('')
   \<and> warnings (validateSyntax sampleEngine ''('')
       = [''Code contains syntax errors that prevent execution'']"
proof -
  let ?B = "''return '' @ [dquote] @ '')'' @ [dquote]"
  let ?C = "''return '' @ [dquote] @ ''a)(b]c{('' @ [dquote]"
  have n: "newFunction lenientEngine ?B = None" by (simp add: lenientEngine_def)
  have f: "filter (unmatchedCloser ?B) [0..<10] = [8]" by code_simp
  have x: "expectedBracketWarnings ?B = [unmatchedMessage CHR '')'' 8]" by code_simp
  have p: "babelParse lenientEngine ?B \<noteq> None" by (simp add: lenientEngine_def)
  have s: "newFunction sampleEngine ''('' \<noteq> None" by code_simp
  have m: "newFunction lenientEngine ?C = None" by (simp add: lenientEngine_def)
  have y: "expectedBracketWarnings ?C
       = [unmatchedMessage CHR '')'' 9, unmatchedMessage CHR '']'' 12,
          unclosedMessage (CHR ''{'', 14), unclosedMessage (CHR ''('', 15)]"
    by code_simp
  from validateSyntax_diagnostics [of lenientEngine ?B]
    validateSyntax_diagnostics [of sampleEngine "''(''"]
    validateSyntax_diagnostics [of lenientEngine ?C] n f x p s m y
  show ?thesis by auto
qed

text \<open>
  C8. The spec says a replacement span that runs past the end of the buffer is an
  explicit failure. \<^verbatim>\<open>safeReplace\<close> of globalFunction.jsx has no bounds check:
  \<^verbatim>\<open>substring\<close> clamps the span. On the buffer \<^verbatim>\<open>x\<close>, a safe location at line 1,
  column 1, with length 5 and replacement \<^verbatim>\<open>y\<close>, it succeeds and returns \<^verbatim>\<open>y\<close>.
  The fixers' own \<^verbatim>\<open>FixerBase.safeReplace\<close> refuses the same span with "Invalid
  replacement bounds".
\<close>

theorem safeReplace_past_end_succeeds:
  "int (length ''x'') < 0 + 5
   \<and> getAbsolutePosition ''x'' 1 1 = Inr 0
   \<and> isSafe (safeZoneOf (analyzeAbsolutePosition ''x'' 0))
   \<and> fst (safeReplace sampleEngine Map.empty ''x'' 1 1 5 ''y'')
       = \<lparr>success = True, resultCode = ''y'', message = ''Text replaced successfully'',
          resultWarnings = []\<rparr>
   \<and> fixerBaseSafeReplace ''x'' 0 5 ''y'' = Inl (Error ''Invalid replacement bounds'')"
  by code_simp

text \<open>
  C9. The fix history is a bounded first-in first-out list. On a validator as the
  constructor builds it, after any sequence of \<^verbatim>\<open>recordFix\<close> calls the history holds at
  most 100 entries, and one call keeps a history of at most 100 entries within the
  bound. After 101 calls the history is the records of calls 2 to 101 in order: the
  record of the 101st call is present, and the record of the first call is gone (no
  entry equals it, as long as no later call appended an equal record).
\<close>

theorem fixHistory_bounded_fifo:
  "length (fixHistory (recordFixes newCodeValidator rs)) \<le> 100
   \<and> (length (fixHistory v) \<le> 100 \<longrightarrow> length (fixHistory (recordFix v r)) \<le> 100)
   \<and> (length rs = 101 \<longrightarrow>
        fixHistory (recordFixes newCodeValidator rs) = tl rs
        \<and> rs ! 100 \<in> set (fixHistory (recordFixes newCodeValidator rs))
        \<and> (distinct rs \<longrightarrow> rs ! 0 \<notin> set (fixHistory (recordFixes newCodeValidator rs))))"
proof -
  have h: "fixHistory (recordFixes newCodeValidator rs) = drop (length rs - 100) rs"
    using recordFixes_history [of newCodeValidator rs] by (simp add: newCodeValidator_def)
  have a: "length (fixHistory (recordFixes newCodeValidator rs)) \<le> 100"
    by (simp add: h)
  have c: "fixHistory (recordFixes newCodeValidator rs) = tl rs
        \<and> rs ! 100 \<in> set (fixHistory (recordFixes newCodeValidator rs))
        \<and> (distinct rs \<longrightarrow> rs ! 0 \<notin> set (fixHistory (recordFixes newCodeValidator rs)))"
    if len: "length rs = 101"
  proof -
    from len obtain x xs where rs: "rs = x # xs" and xs: "length xs = 100"
      by (cases rs) auto
    have hx: "fixHistory (recordFixes newCodeValidator rs) = xs"
      unfolding h by (simp add: rs xs)
    have "xs ! 99 \<in> set xs" using xs by simp
    then show ?thesis unfolding hx by (simp add: rs)
  qed
  from a c recordFix_bounded show ?thesis by blast
qed

theorem fixHistory_bounded_fifo_witness:
  "length (map sampleFix [0..<101]) = 101
   \<and> distinct (map sampleFix [0..<101])
   \<and> length (fixHistory (recordFixes newCodeValidator (map sampleFix [0..<101]))) \<le> 100
   \<and> fixHistory (recordFixes newCodeValidator (map sampleFix [0..<101])) = map sampleFix [1..<101]
   \<and> sampleFix 100 \<in> set (fixHistory (recordFixes newCodeValidator (map sampleFix [0..<101])))
   \<and> sampleFix 0 \<notin> set (fixHistory (recordFixes newCodeValidator (map sampleFix [0..<101])))
   \<and> length (fixHistory newCodeValidator) \<le> 100
   \<and> length (fixHistory (recordFix newCodeValidator (sampleFix 0))) \<le> 100"
proof -
  let ?rs = "map sampleFix [0..<101]"
  have len: "length ?rs = 101" by simp
  have inj: "inj sampleFix" by (rule injI) (simp add: sampleFix_def)
  have dis: "distinct ?rs" by (simp add: distinct_map inj_on_def sampleFix_def)
  have tl: "tl ?rs = map sampleFix [1..<101]"
    by (simp add: upt_conv_Cons)
  have n100: "?rs ! 100 = sampleFix 100" by (simp del: upt_Suc)
  have n0: "?rs ! 0 = sampleFix 0" by (simp add: upt_conv_Cons)
  have e: "length (fixHistory newCodeValidator) \<le> 100" by (simp add: newCodeValidator_def)
  from fixHistory_bounded_fifo [of ?rs newCodeValidator "sampleFix 0"] len dis e
  show ?thesis unfolding tl n100 n0 by (simp add: inj_image_mem_iff [OF inj])
qed

text \<open>
  C10. No position is ever classified as inside a regex literal: the in-regex flag set
  on a slash is cleared on that same slash, because a slash that \<^verbatim>\<open>isEscaped\<close> spares
  has a backslash right before it and \<^verbatim>\<open>couldBeRegexStart\<close> refuses such a slash. So
  the scanner's context has \<open>inRegex = False\<close> for every buffer and offset, \<^verbatim>\<open>isInRegex\<close>
  is always false, and on an analyzer built fresh and used for any sequence of calls,
  \<^verbatim>\<open>findSafeFixZone\<close> never returns the regular-expression veto.
\<close>

theorem inRegex_never_set:
  "\<not> inRegex (analyzeAbsolutePosition code position)
   \<and> \<not> isInRegex code position
   \<and> (case findSafeFixZone (analyzeCalls Map.empty calls) code line column of
         (Inl err, cache') \<Rightarrow> True
       | (Inr zone, cache') \<Rightarrow> \<not> inRegex (zoneContext zone) \<and> reason zone \<noteq> reasonRegex)"
proof -
  have free: "regexFreeCache (analyzeCalls Map.empty calls)"
    by (rule regexFreeCache_analyzeCalls) (rule regexFreeCache_empty)
  have zone: "\<not> inRegex ctx \<Longrightarrow> \<not> inRegex (zoneContext (safeZoneOf ctx))
      \<and> reason (safeZoneOf ctx) \<noteq> reasonRegex" for ctx
    using reason_regex_iff [of ctx] by (simp add: safeZoneOf_def)
  have "case findSafeFixZone (analyzeCalls Map.empty calls) code line column of
         (Inl err, cache') \<Rightarrow> True
       | (Inr zone, cache') \<Rightarrow> \<not> inRegex (zoneContext zone) \<and> reason zone \<noteq> reasonRegex"
    using regexFreeCache_analyzePosition(2) [OF free, of code line column] zone
    by (auto simp: findSafeFixZone_def split: prod.splits sum.splits)
  then show ?thesis
    by (simp add: analyze_no_regex isInRegex_def)
qed

end
